theory Spec2Isabelle
  imports Main "HOL-Library.Multiset"
begin

section \<open>Exceptions\<close>

text \<open>
  The Python exceptions that the modelled code can raise. A function that can raise
  returns \<open>error + 'a\<close>; \<open>Inl\<close> carries the exception.
\<close>

datatype error = IndexError | TypeError | AttributeError | ValueError | NameError

section \<open>The selector interpreter (targeting.py)\<close>

subsection \<open>Programs\<close>

text \<open>
  A selector program is a list of opcodes. \<open>Pred\<close> stands for every object with a
  \<open>test(entity, source)\<close> method (the members of the IntEnum classes, and the
  \<open>IsSelf\<close>, \<open>IsOwner\<close>, \<open>IsTarget\<close> instances); the predicate itself is
  defined outside targeting.py and is carried as a function of the entity and the source.
  \<open>OpAnd\<close>, \<open>OpOr\<close>, \<open>OpNot\<close> are the functions \<open>Selector._and\<close>,
  \<open>Selector._or\<close>, \<open>Selector._not\<close>. \<open>MergeFilter\<close>, \<open>Merge\<close>,
  \<open>Unmerge\<close> are the three marker classes. \<open>SelectAdjacent\<close> carries the
  accessor \<open>adjacent_minions\<close> of the entities, \<open>SelectRandom\<close> its fields
  \<open>times\<close> and \<open>fallback\<close>. The fallback is Python's \<open>None\<close> or a value
  together with its truth value \<open>bool(fallback)\<close>, which the class of the value
  defines (a number is false when it is zero, a string or a list when it is empty).
\<close>

datatype 'e op =
    Pred "'e \<Rightarrow> 'e \<Rightarrow> bool"
  | OpAnd
  | OpOr
  | OpNot
  | MergeFilter
  | Merge
  | Unmerge
  | SelectAdjacent "'e \<Rightarrow> 'e list"
  | SelectRandom int "('e \<times> bool) option"

subsection \<open>Selector.test\<close>

text \<open>
  The program counters \<open>opc\<close> and \<open>pc\<close> are kept as the part of the program that
  is still to be read. The value stack has its top at the head of the list.
  \<open>run_ops\<close> is the while loop of \<open>Selector.test\<close>: it stops behind the first
  \<open>Merge\<close> or \<open>MergeFilter\<close>, calls a callable opcode on the stack (the three
  boolean functions pop their operands, and popping an empty stack raises IndexError;
  calling the class \<open>Unmerge\<close> with two arguments raises TypeError), and pushes
  the test result of every other opcode (an object without a \<open>test\<close> method
  raises AttributeError).
\<close>

fun run_ops :: "'e op list \<Rightarrow> 'e \<Rightarrow> 'e \<Rightarrow> bool list \<Rightarrow> error + (bool list \<times> 'e op list)" where
  "run_ops [] entity source stack = Inr (stack, [])"
| "run_ops (Merge # pc) entity source stack = Inr (stack, pc)"
| "run_ops (MergeFilter # pc) entity source stack = Inr (stack, pc)"
| "run_ops (OpAnd # pc) entity source stack =
     (case stack of a # b # stack' \<Rightarrow> run_ops pc entity source ((a \<and> b) # stack')
      | _ \<Rightarrow> Inl IndexError)"
| "run_ops (OpOr # pc) entity source stack =
     (case stack of a # b # stack' \<Rightarrow> run_ops pc entity source ((a \<or> b) # stack')
      | _ \<Rightarrow> Inl IndexError)"
| "run_ops (OpNot # pc) entity source stack =
     (case stack of a # stack' \<Rightarrow> run_ops pc entity source ((\<not> a) # stack')
      | _ \<Rightarrow> Inl IndexError)"
| "run_ops (Unmerge # pc) entity source stack = Inl TypeError"
| "run_ops (Pred p # pc) entity source stack = run_ops pc entity source (p entity source # stack)"
| "run_ops (SelectAdjacent adj # pc) entity source stack = Inl AttributeError"
| "run_ops (SelectRandom n fallback # pc) entity source stack = Inl AttributeError"

text \<open>\<open>Selector.test\<close>: run from \<open>opc\<close> on an empty stack and return \<open>stack[-1]\<close>,
  which raises IndexError on an empty stack. The second component is \<open>self.pc\<close>.\<close>

definition Selector_test :: "'e op list \<Rightarrow> 'e \<Rightarrow> 'e \<Rightarrow> error + (bool \<times> 'e op list)" where
  "Selector_test opc entity source =
     (case run_ops opc entity source [] of
        Inl err \<Rightarrow> Inl err
      | Inr (stack, pc) \<Rightarrow> (case stack of [] \<Rightarrow> Inl IndexError | v # _ \<Rightarrow> Inr (v, pc)))"

text \<open>The comprehension \<open>[e for e in entities if self.test(e, source)]\<close>, together
  with the \<open>self.pc\<close> that the last call of \<open>test\<close> leaves behind. \<open>Selector.eval\<close>
  returns before its loop when the collection is empty, so the comprehension always
  runs over at least one entity; on no entity at all \<open>pc\<close> is left where it was.\<close>

fun filter_test :: "'e op list \<Rightarrow> 'e list \<Rightarrow> 'e \<Rightarrow> error + ('e list \<times> 'e op list)" where
  "filter_test opc [] source = Inr ([], opc)"
| "filter_test opc [e] source =
     (case Selector_test opc e source of
        Inl err \<Rightarrow> Inl err
      | Inr (v, pc) \<Rightarrow> Inr (if v then [e] else [], pc))"
| "filter_test opc (e # es) source =
     (case Selector_test opc e source of
        Inl err \<Rightarrow> Inl err
      | Inr (v, _) \<Rightarrow>
          (case filter_test opc es source of
             Inl err \<Rightarrow> Inl err
           | Inr (r, pc) \<Rightarrow> Inr (if v then e # r else r, pc)))"

subsection \<open>The random source and the merge operations\<close>

text \<open>
  \<open>random.sample\<close> belongs to Python's standard library. It is modelled as sampling
  without replacement by position, driven by an explicit seedable source: the list of
  the draws still to come, each draw picking a position among the entities that are
  left (position 0 once the draws are used up). Every selection of \<open>k\<close> positions in
  every order is the result of some source. The library raises ValueError when \<open>k\<close>
  is negative or larger than the population.
\<close>

type_synonym rng = "nat list"

fun sample :: "rng \<Rightarrow> 'a list \<Rightarrow> nat \<Rightarrow> 'a list \<times> rng" where
  "sample r xs 0 = ([], r)"
| "sample r [] (Suc k) = ([], r)"
| "sample r (x # xs) (Suc k) =
     (let i = (case r of [] \<Rightarrow> 0 | d # _ \<Rightarrow> d mod length (x # xs));
          (ys, r') = sample (tl r) (take i (x # xs) @ drop (Suc i) (x # xs)) k
      in ((x # xs) ! i # ys, r'))"

definition random_sample :: "rng \<Rightarrow> 'a list \<Rightarrow> int \<Rightarrow> error + ('a list \<times> rng)" where
  "random_sample r population k =
     (if k < 0 \<or> int (length population) < k then Inl ValueError
      else Inr (sample r population (nat k)))"

text \<open>\<open>op.merge(selector, entities)\<close>: \<open>SelectAdjacent.merge\<close> and
  \<open>SelectRandom.merge\<close>; every other opcode has no \<open>merge\<close> attribute.
  \<open>SelectRandom.merge\<close> tests \<open>not entities and self.fallback\<close>: the
  fallback is returned only when it is true; \<open>None\<close> and a false fallback fall
  through to the sample.\<close>

fun merge :: "'e op \<Rightarrow> 'e list \<Rightarrow> rng \<Rightarrow> error + ('e list \<times> rng)" where
  "merge (SelectAdjacent adjacent_minions) entities r =
     Inr (concat (map adjacent_minions entities), r)"
| "merge (SelectRandom n fallback) entities r =
     (case (entities, fallback) of
        ([], Some (fb, True)) \<Rightarrow> Inr ([fb], r)
      | _ \<Rightarrow> random_sample r entities (min (int (length entities)) n))"
| "merge _ entities r = Inl AttributeError"

subsection \<open>Selector.eval\<close>

text \<open>The loop that feeds \<open>merge_input\<close> through the opcodes up to \<open>Unmerge\<close>.\<close>

fun merge_loop :: "'e op list \<Rightarrow> 'e list \<Rightarrow> 'e list \<Rightarrow> rng \<Rightarrow> error + ('e list \<times> 'e op list \<times> rng)" where
  "merge_loop [] merge_input merge_output r = Inr (merge_output, [], r)"
| "merge_loop (Unmerge # opc) merge_input merge_output r = Inr (merge_output, opc, r)"
| "merge_loop (op # opc) merge_input merge_output r =
     (case merge op merge_input r of
        Inl err \<Rightarrow> Inl err
      | Inr (xs, r') \<Rightarrow> merge_loop opc merge_input (merge_output @ xs) r')"

text \<open>The loop over the operators that follow \<open>Unmerge\<close>; it returns \<open>result\<close>,
  \<open>combined\<close> and \<open>opc\<close>.\<close>

fun combine_loop :: "'e op list \<Rightarrow> 'e list \<Rightarrow> 'e list \<Rightarrow> bool \<Rightarrow> bool \<Rightarrow> 'e list \<times> bool \<times> 'e op list" where
  "combine_loop (OpOr # opc) result merge_output negated combined =
     combine_loop opc (result @ merge_output) merge_output negated True"
| "combine_loop (OpAnd # opc) result merge_output negated combined =
     combine_loop opc (filter (\<lambda>e. (e \<in> set merge_output) \<noteq> negated) result) merge_output negated True"
| "combine_loop (OpNot # opc) result merge_output negated combined =
     combine_loop opc result merge_output (\<not> negated) combined"
| "combine_loop opc result merge_output negated combined = (result, combined, opc)"

text \<open>The merge step of one round of the outer loop, from \<open>merge_input = ...\<close> to
  \<open>if not combined\<close>.\<close>

definition merge_step :: "'e op list \<Rightarrow> 'e list \<Rightarrow> 'e \<Rightarrow> 'e list \<Rightarrow> rng \<Rightarrow> error + ('e list \<times> 'e op list \<times> rng)" where
  "merge_step opc entities source result r =
     (case filter_test opc entities source of
        Inl err \<Rightarrow> Inl err
      | Inr (merge_input, opc1) \<Rightarrow>
          (case merge_loop opc1 merge_input [] r of
             Inl err \<Rightarrow> Inl err
           | Inr (merge_output, opc2, r') \<Rightarrow>
               (case combine_loop opc2 result merge_output False False of
                  (result', combined, opc3) \<Rightarrow>
                    Inr (if combined then result' else result' @ merge_output, opc3, r'))))"

lemma run_ops_length:
  "run_ops opc e s st = Inr (st', pc) \<Longrightarrow> length pc \<le> length opc"
  by (induction opc e s st rule: run_ops.induct) (auto split: list.splits)

lemma run_ops_nonempty_length:
  assumes "run_ops opc e s st = Inr (st', pc)" and "opc \<noteq> []"
  shows "length pc < length opc"
proof (cases opc)
  case Nil
  with assms(2) show ?thesis by simp
next
  case (Cons x pc')
  with assms(1) show ?thesis
    by (cases x) (auto split: list.splits dest: run_ops_length)
qed

lemma Selector_test_length:
  "Selector_test opc e s = Inr (v, pc) \<Longrightarrow> length pc < length opc"
  by (cases opc)
     (auto simp: Selector_test_def split: sum.splits list.splits prod.splits
           dest: run_ops_nonempty_length)

lemma filter_test_length:
  "filter_test opc es s = Inr (xs, pc) \<Longrightarrow> es \<noteq> [] \<Longrightarrow> length pc < length opc"
  by (induction opc es s arbitrary: xs pc rule: filter_test.induct)
     (auto split: sum.splits prod.splits dest: Selector_test_length)

lemma merge_loop_length:
  "merge_loop opc inp out r = Inr (out', opc', r') \<Longrightarrow> length opc' \<le> length opc"
proof (induction opc arbitrary: out r)
  case Nil
  then show ?case by simp
next
  case (Cons x opc)
  show ?case
  proof (cases "x = Unmerge")
    case True
    with Cons.prems show ?thesis by simp
  next
    case False
    with Cons.prems obtain xs r1 where
      "merge_loop opc inp (out @ xs) r1 = Inr (out', opc', r')"
      by (cases x) (auto split: sum.splits prod.splits)
    from Cons.IH [OF this] show ?thesis by simp
  qed
qed

lemma combine_loop_length:
  "combine_loop opc res out n c = (res', c', opc') \<Longrightarrow> length opc' \<le> length opc"
  by (induction opc res out n c rule: combine_loop.induct) auto

lemma merge_step_length:
  assumes "merge_step opc es s res r = Inr (res', opc', r')" and "es \<noteq> []"
  shows "length opc' < length opc"
proof -
  from assms(1) obtain inp opc1 out opc2 r2 c res2 where
    f: "filter_test opc es s = Inr (inp, opc1)" and
    m: "merge_loop opc1 inp [] r = Inr (out, opc2, r2)" and
    c: "combine_loop opc2 res out False False = (res2, c, opc')"
    by (auto simp: merge_step_def split: sum.splits prod.splits)
  from filter_test_length [OF f assms(2)] merge_loop_length [OF m] combine_loop_length [OF c]
  show ?thesis by simp
qed

text \<open>The outer while loop of \<open>Selector.eval\<close>, over the non-empty collection
  \<open>e # es\<close>. A segment that does not start with \<open>MergeFilter\<close> is filtered into
  the result; unless the program ends there, control falls into the merge step.\<close>

function eval_loop :: "'e op list \<Rightarrow> 'e \<Rightarrow> 'e list \<Rightarrow> 'e \<Rightarrow> 'e list \<Rightarrow> rng \<Rightarrow> error + ('e list \<times> rng)" where
  "eval_loop [] e es source result r = Inr (result, r)"
| "eval_loop (MergeFilter # opc) e es source result r =
     (case merge_step opc (e # es) source result r of
        Inl err \<Rightarrow> Inl err
      | Inr (result', opc', r') \<Rightarrow> eval_loop opc' e es source result' r')"
| "op \<noteq> MergeFilter \<Longrightarrow> eval_loop (op # opc) e es source result r =
     (case filter_test (op # opc) (e # es) source of
        Inl err \<Rightarrow> Inl err
      | Inr (xs, opc1) \<Rightarrow>
          if opc1 = [] then Inr (result @ xs, r)
          else (case merge_step opc1 (e # es) source (result @ xs) r of
                  Inl err \<Rightarrow> Inl err
                | Inr (result', opc', r') \<Rightarrow> eval_loop opc' e es source result' r'))"
  apply (atomize_elim)
  subgoal for x
    apply (cases x)
    subgoal for opc e es source result r
      by (cases opc) auto
    done
  by auto
termination
proof (relation "measure (\<lambda>(opc, e, es, source, result, r). length opc)", goal_cases)
  case 1
  show ?case by simp
next
  case (2 opc e es source result r x2 result' y opc' r')
  then show ?case using merge_step_length [of opc "e # es" source result r result' opc' r'] by simp
next
  case (3 op opc e es source result r x2 xs opc1 x2a result' y opc' r')
  then show ?case
    using filter_test_length [of "op # opc" "e # es" source xs opc1]
          merge_step_length [of opc1 "e # es" source "result @ xs" r result' opc' r']
    by simp
qed

text \<open>\<open>Selector.eval\<close>: an empty collection returns the empty list at once.\<close>

definition Selector_eval :: "'e op list \<Rightarrow> 'e list \<Rightarrow> 'e \<Rightarrow> rng \<Rightarrow> error + ('e list \<times> rng)" where
  "Selector_eval program entities source r =
     (case entities of
        [] \<Rightarrow> Inr ([], r)
      | e # es \<Rightarrow> eval_loop program e es source [] r)"

subsection \<open>Selector objects and the selector algebra\<close>

text \<open>
  The selector classes. \<open>Selector\<close> holds its program. \<open>SelfSelector\<close>,
  \<open>OwnerSelector\<close> and \<open>TargetSelector\<close> override \<open>eval\<close>; the last two
  read \<open>source.owner\<close> (which may be \<open>None\<close>) and \<open>source.target\<close>,
  attributes defined outside targeting.py and carried as accessor functions.
  \<open>RandomSelector\<close> holds the fields \<open>random.times\<close>, \<open>random.fallback\<close>
  and \<open>selector\<close>. Its program contains the very object \<open>self.random\<close>, so
  the program is read off the fields: an assignment to \<open>random.fallback\<close> shows
  in the program. An \<open>AdjacentSelector\<close> differs from a \<open>Selector\<close> in its
  constructor only.
\<close>

datatype 'e selector =
    Selector "'e op list"
  | SelfSelector
  | OwnerSelector "'e \<Rightarrow> 'e option"
  | TargetSelector "'e \<Rightarrow> 'e"
  | RandomSelector int "('e \<times> bool) option" "'e selector"

fun program :: "'e selector \<Rightarrow> 'e op list" where
  "program (Selector p) = p"
| "program SelfSelector = [Pred (\<lambda>entity source. entity = source)]"
| "program (OwnerSelector owner) = [Pred (\<lambda>entity source. Some entity = owner source)]"
| "program (TargetSelector target) = [Pred (\<lambda>entity source. entity = target source)]"
| "program (RandomSelector n fallback selector) =
     [MergeFilter] @ program selector @ [Merge, SelectRandom n fallback, Unmerge]"



definition Selector_add :: "'e selector \<Rightarrow> 'e selector \<Rightarrow> 'e selector" where
  "Selector_add self other = Selector (program self @ program other @ [OpAnd])"



text \<open>\<open>RandomSelector.__init__\<close> and \<open>RandomSelector.__mul__\<close>. The product is a
  new selector over the same base selector; its fallback is the constructor's
  \<open>None\<close>. No other class defines \<open>__mul__\<close>.\<close>

definition RandomSelector_init :: "'e selector \<Rightarrow> 'e selector" where
  "RandomSelector_init selector = RandomSelector 1 None selector"

fun RandomSelector_mul :: "'e selector \<Rightarrow> int \<Rightarrow> error + 'e selector" where
  "RandomSelector_mul (RandomSelector n fallback selector) other =
     Inr (RandomSelector (n * other) None selector)"
| "RandomSelector_mul _ other = Inl TypeError"



text \<open>\<open>eval\<close>, dispatched on the class of the selector.\<close>

fun selector_eval :: "'e selector \<Rightarrow> 'e list \<Rightarrow> 'e \<Rightarrow> rng \<Rightarrow> error + ('e list \<times> rng)" where
  "selector_eval SelfSelector entities source r = Inr ([source], r)"
| "selector_eval (OwnerSelector owner) entities source r =
     Inr (case owner source of Some ow \<Rightarrow> [ow] | None \<Rightarrow> [], r)"
| "selector_eval (TargetSelector target) entities source r = Inr ([target source], r)"
| "selector_eval selector entities source r = Selector_eval (program selector) entities source r"


subsection \<open>Plain programs\<close>

text \<open>
  A plain program is a postfix boolean expression: atomic predicates and the three
  boolean functions only, never popping an empty stack and leaving exactly one value.
  \<open>depth_after p n\<close> is the height of the stack after \<open>p\<close> has run on a stack of
  height \<open>n\<close>. The programs that \<open>Selector(...)\<close>, \<open>|\<close>, \<open>+\<close> and \<open>-\<close> build
  from atomic predicates are plain.
\<close>

fun depth_after :: "'e op list \<Rightarrow> nat \<Rightarrow> nat option" where
  "depth_after [] n = Some n"
| "depth_after (Pred p # ops) n = depth_after ops (Suc n)"
| "depth_after (OpAnd # ops) n = (if 2 \<le> n then depth_after ops (n - 1) else None)"
| "depth_after (OpOr # ops) n = (if 2 \<le> n then depth_after ops (n - 1) else None)"
| "depth_after (OpNot # ops) n = (if 1 \<le> n then depth_after ops n else None)"
| "depth_after (_ # ops) n = None"

definition plain :: "'e op list \<Rightarrow> bool" where
  "plain p \<longleftrightarrow> depth_after p 0 = Some 1"

text \<open>An entity passes a program when \<open>test\<close> returns \<open>True\<close> for it.\<close>

definition passes :: "'e op list \<Rightarrow> 'e \<Rightarrow> 'e \<Rightarrow> bool" where
  "passes p source entity =
     (case Selector_test p entity source of Inl err \<Rightarrow> False | Inr (v, pc) \<Rightarrow> v)"



section \<open>Actions, event listeners and the game (actions.py)\<close>

subsection \<open>The sequence counter and the construction of actions\<close>

text \<open>
  The classes of actions.py. \<open>ActionBase\<close> is the class \<open>Action\<close> itself.
\<close>

datatype action_class =
    ActionBase | GameAction | TargetedAction
  | Attack | BeginTurn | Deaths | Death | EndTurn | Play
  | Buff | Bounce | Damage | Deathrattle | Destroy | Discard | Draw | ForceDraw
  | ForcePlay | FullHeal | GainArmor | GainMana | Give | Hit | Heal | ManaThisTurn
  | Mill | Morph | Freeze | FillMana | Reveal | SetTag | Silence | Summon | Shuffle
  | Swap | TakeControl

fun is_game_action :: "action_class \<Rightarrow> bool" where
  "is_game_action GameAction = True"
| "is_game_action Attack = True"
| "is_game_action BeginTurn = True"
| "is_game_action Deaths = True"
| "is_game_action Death = True"
| "is_game_action EndTurn = True"
| "is_game_action Play = True"
| "is_game_action _ = False"

fun is_targeted_action :: "action_class \<Rightarrow> bool" where
  "is_targeted_action ActionBase = False"
| "is_targeted_action c = (\<not> is_game_action c)"

text \<open>\<open>isinstance(x, c)\<close> for an object \<open>x\<close> of class \<open>d\<close>: no class with a
  body of its own has a subclass other than the three base classes.\<close>

definition isinstance :: "action_class \<Rightarrow> action_class \<Rightarrow> bool" where
  "isinstance d c \<longleftrightarrow>
     d = c \<or> c = ActionBase \<or> (c = GameAction \<and> is_game_action d)
     \<or> (c = TargetedAction \<and> is_targeted_action d)"

text \<open>The class attribute \<open>args\<close>: the names of the constructor's arguments.\<close>

fun class_args :: "action_class \<Rightarrow> string list" where
  "class_args ActionBase = []"
| "class_args GameAction = []"
| "class_args Deaths = []"
| "class_args Death = []"
| "class_args Attack = [''source'', ''target'']"
| "class_args BeginTurn = [''player'']"
| "class_args EndTurn = [''player'']"
| "class_args Play = [''card'', ''target'', ''choose'']"
| "class_args Buff = [''targets'', ''id'']"
| "class_args Damage = [''targets'', ''amount'']"
| "class_args ForceDraw = [''targets'', ''cards'']"
| "class_args ForcePlay = [''targets'', ''cards'']"
| "class_args GainArmor = [''targets'', ''amount'']"
| "class_args GainMana = [''targets'', ''amount'']"
| "class_args Give = [''targets'', ''card'']"
| "class_args Hit = [''targets'', ''amount'', ''source'']"
| "class_args Heal = [''targets'', ''amount'']"
| "class_args ManaThisTurn = [''targets'', ''amount'']"
| "class_args Mill = [''targets'', ''count'']"
| "class_args Morph = [''targets'', ''id'']"
| "class_args FillMana = [''targets'', ''amount'']"
| "class_args SetTag = [''targets'', ''values'']"
| "class_args Summon = [''targets'', ''card'']"
| "class_args Shuffle = [''targets'', ''card'']"
| "class_args Swap = [''targets'', ''other'']"
| "class_args _ = [''targets'']"

text \<open>
  Entities are objects with an identity and attributes that change: an entity is a
  reference, and the game maps it to its attributes. The attributes are those that
  actions.py reads and writes; the classes that declare them are outside these files.
  \<open>Zone\<close> lists the members of the enum that the files name.
\<close>

type_synonym ref = nat

datatype Zone = PLAY | DECK | HAND | GRAVEYARD | SECRET

record entity =
  zone :: Zone
  ignore_events :: bool
  controller :: ref
  damage :: int
  deck :: "ref list"
  outgoing_healing_adjustment :: bool
  healing_double :: int
  extra_deathrattles :: bool

text \<open>The values of an event's payload and of a target list: an entity or a number.
  A selector ranges over the values as they are when it is evaluated (\<open>Ent\<close> holds
  the entity with its attributes at that moment), so that a predicate reads the
  attributes of the moment; two such values are equal exactly when they are the same
  object.\<close>

datatype pval = PEnt ref | PNum int

datatype "value" = Ent ref entity | Num int

text \<open>An action object: its class, the attribute \<open>order_of_play\<close>, the attribute
  \<open>times\<close> and \<open>_args\<close>. An attribute that was never assigned is \<open>None\<close>.
  An argument is a selector, an entity, an action, a number, or something else (a card
  id, a dict of tags).\<close>

datatype action =
  Action (cls: action_class) (order_of_play: "nat option") (times_field: "int option")
    (init_args: "arg list")
and arg =
    SelectorArg "value selector"
  | EntityArg ref
  | ActionArg action
  | IntArg int
  | OtherArg string

text \<open>Modelled from the spec: \<open>new_order_of_play\<close> is imported from entity.py, which
  is not among the source files. The spec calls it a process-wide monotonically
  increasing counter whose stamps are unique and strictly increasing; the state is the
  last stamp given out.\<close>

definition new_order_of_play :: "nat \<Rightarrow> nat \<times> nat" where
  "new_order_of_play counter = (Suc counter, Suc counter)"

text \<open>\<open>Action.__init__\<close> stamps the object and sets \<open>times\<close>;
  \<open>GameAction.__init__\<close> overrides it and does not call it. The attributes that
  \<open>setattr\<close> assigns are read back from \<open>_args\<close> by \<open>get_attr\<close>.\<close>

definition Action_init :: "action_class \<Rightarrow> arg list \<Rightarrow> nat \<Rightarrow> action \<times> nat" where
  "Action_init c as counter =
     (case new_order_of_play counter of
        (stamp, counter') \<Rightarrow> (Action c (Some stamp) (Some 1) as, counter'))"

definition GameAction_init :: "action_class \<Rightarrow> arg list \<Rightarrow> nat \<Rightarrow> action \<times> nat" where
  "GameAction_init c as counter = (Action c None None as, counter)"

text \<open>The call \<open>C(*args)\<close> of a class \<open>C\<close>.\<close>

definition construct :: "action_class \<Rightarrow> arg list \<Rightarrow> nat \<Rightarrow> action \<times> nat" where
  "construct c as counter =
     (if is_game_action c then GameAction_init c as counter else Action_init c as counter)"

fun construct_all :: "(action_class \<times> arg list) list \<Rightarrow> nat \<Rightarrow> action list \<times> nat" where
  "construct_all [] counter = ([], counter)"
| "construct_all ((c, as) # rest) counter =
     (case construct c as counter of
        (a, counter') \<Rightarrow>
          (case construct_all rest counter' of (acts, counter'') \<Rightarrow> (a # acts, counter'')))"

fun get_attr :: "action \<Rightarrow> string \<Rightarrow> arg option" where
  "get_attr self name = map_of (zip (class_args (cls self)) (init_args self)) name"

text \<open>\<open>Action.__mul__\<close>: \<open>self.times *= value\<close>; an object without the attribute
  raises AttributeError.\<close>

definition Action_mul :: "action \<Rightarrow> int \<Rightarrow> error + action" where
  "Action_mul self v =
     (case times_field self of
        None \<Rightarrow> Inl AttributeError
      | Some t \<Rightarrow> Inr (Action (cls self) (order_of_play self) (Some (t * v)) (init_args self)))"

subsection \<open>Event listeners and the game\<close>

text \<open>A follow-up of a listener is an action or a callable that is given the owning
  entity and the payload and returns actions; callables are card content.\<close>

datatype follow_up = FAction action | FCallable "ref \<Rightarrow> pval list \<Rightarrow> action list"

text \<open>\<open>EventListener\<close>. \<open>eid\<close> is the identity of the object: listeners have no
  \<open>__eq__\<close>, so \<open>list.remove\<close> compares them by identity.\<close>

record event_listener =
  eid :: nat
  trigger :: action
  actions :: "follow_up list"
  at :: nat
  once :: bool
  ev_zone :: Zone

definition ON :: nat where "ON = 1"
definition AFTER :: nat where "AFTER = 2"

definition EventListener :: "nat \<Rightarrow> action \<Rightarrow> follow_up list \<Rightarrow> nat \<Rightarrow> Zone \<Rightarrow> bool \<Rightarrow> event_listener" where
  "EventListener i trig acts at' z once' =
     \<lparr>eid = i, trigger = trig, actions = acts, at = at', once = once', ev_zone = z\<rparr>"

text \<open>\<open>Action.after\<close>, \<open>Action.on\<close> and \<open>Action.once\<close> with the default zone.\<close>

definition Action_after :: "nat \<Rightarrow> action \<Rightarrow> follow_up list \<Rightarrow> event_listener" where
  "Action_after i self acts = EventListener i self acts AFTER PLAY False"

definition Action_on :: "nat \<Rightarrow> action \<Rightarrow> follow_up list \<Rightarrow> event_listener" where
  "Action_on i self acts = EventListener i self acts ON PLAY False"

definition Action_once :: "nat \<Rightarrow> action \<Rightarrow> follow_up list \<Rightarrow> event_listener" where
  "Action_once i self acts = EventListener i self acts ON PLAY True"

datatype deathrattle = DCallable "ref \<Rightarrow> action list" | DActions "action list"

text \<open>Calls into code outside these files are recorded in the order in which they
  are made; what they do to the game is not part of these files.\<close>

datatype ext_call =
    Fatigue ref
  | CardDraw ref
  | EntityHit ref pval arg
  | ManagerAction action_class ref "pval list"
  | ManagerActionEnd action_class ref "pval list"

record game =
  attrs :: "ref \<Rightarrow> entity"
  events :: "ref \<Rightarrow> event_listener list"
  deathrattles :: "ref \<Rightarrow> deathrattle list"
  hands :: "ref list"
  entities :: "ref list"
  all_entities :: "ref list"
  queue :: "(ref \<times> action list) list"
  calls :: "ext_call list"
  random :: rng

text \<open>Modelled from the spec: \<open>game.queue_actions\<close> is a method of game.py, which is
  not among the source files. The spec says that queuing a follow-up effect means
  appending it to an external pending-effects list owned by the turn driver.\<close>

definition queue_actions :: "game \<Rightarrow> ref \<Rightarrow> action list \<Rightarrow> game" where
  "queue_actions g source acts = g\<lparr>queue := queue g @ [(source, acts)]\<rparr>"

text \<open>Modelled from the spec: iterating the game object, as \<open>selector.eval(game,
  source)\<close> does, is defined in game.py; the spec speaks of the enumeration of all
  entities, hidden and hand zones included. The field \<open>all_entities\<close> is that
  enumeration.\<close>

definition snapshot :: "game \<Rightarrow> pval \<Rightarrow> value" where
  "snapshot g v = (case v of PEnt r \<Rightarrow> Ent r (attrs g r) | PNum n \<Rightarrow> Num n)"

definition game_iter :: "game \<Rightarrow> value list" where
  "game_iter g = map (\<lambda>r. snapshot g (PEnt r)) (all_entities g)"

fun object_of :: "value \<Rightarrow> pval" where
  "object_of (Ent r a) = PEnt r"
| "object_of (Num n) = PNum n"

subsection \<open>Action.matches, Action.broadcast and Action.gather\<close>

text \<open>\<open>Action.matches\<close>: the payload is compared position by position with the
  pattern's \<open>_args\<close>; each of these is asked to \<open>eval\<close> the singleton of the payload
  value, and only a selector has that method with these parameters.\<close>

fun matches_loop :: "(pval \<times> arg) list \<Rightarrow> game \<Rightarrow> ref \<Rightarrow> rng \<Rightarrow> error + (bool \<times> rng)" where
  "matches_loop [] g source r = Inr (True, r)"
| "matches_loop ((a, SelectorArg match) # rest) g source r =
     (case selector_eval match [snapshot g a] (snapshot g (PEnt source)) r of
        Inl err \<Rightarrow> Inl err
      | Inr (res, r') \<Rightarrow>
          (case res of
             [] \<Rightarrow> Inr (False, r')
           | x # _ \<Rightarrow> if x \<noteq> snapshot g a then Inr (False, r') else matches_loop rest g source r'))"
| "matches_loop ((a, ActionArg act) # rest) g source r =
     (if is_targeted_action (cls act) then Inl TypeError else Inl AttributeError)"
| "matches_loop ((a, _) # rest) g source r = Inl AttributeError"

definition matches :: "action \<Rightarrow> game \<Rightarrow> ref \<Rightarrow> pval list \<Rightarrow> rng \<Rightarrow> error + (bool \<times> rng)" where
  "matches self g source as r = matches_loop (zip as (init_args self)) g source r"

text \<open>The loop over \<open>event.actions\<close> in \<open>broadcast\<close>.\<close>

fun broadcast_actions :: "follow_up list \<Rightarrow> ref \<Rightarrow> pval list \<Rightarrow> action list" where
  "broadcast_actions [] entity as = []"
| "broadcast_actions (FCallable f # rest) entity as = f entity as @ broadcast_actions rest entity as"
| "broadcast_actions (FAction a # rest) entity as = a # broadcast_actions rest entity as"

text \<open>The body of the loop over \<open>entity._events\<close> in \<open>broadcast\<close>, for one
  listener. A single-fire listener is removed from the list with \<open>list.remove\<close>
  there and then.\<close>

definition broadcast_event :: "action \<Rightarrow> nat \<Rightarrow> pval list \<Rightarrow> ref \<Rightarrow> event_listener \<Rightarrow> game \<Rightarrow> error + game" where
  "broadcast_event self at' as entity event g =
     (if ev_zone event \<noteq> zone (attrs g entity) then Inr g
      else if isinstance (cls (trigger event)) (cls self) \<and> at event = at' then
        (case matches (trigger event) g entity as (random g) of
           Inl err \<Rightarrow> Inl err
         | Inr (m, r') \<Rightarrow>
             if m then
               (let g1 = queue_actions (g\<lparr>random := r'\<rparr>) entity
                           (broadcast_actions (actions event) entity as)
                in if once event
                   then Inr (g1\<lparr>events := (events g1)(entity := remove1 event (events g1 entity))\<rparr>)
                   else Inr g1)
             else Inr (g\<lparr>random := r'\<rparr>))
      else Inr g)"

lemma broadcast_event_length:
  "broadcast_event self at' as entity event g = Inr g' \<Longrightarrow>
   length (events g' entity) \<le> length (events g entity)"
  by (auto simp: broadcast_event_def queue_actions_def Let_def length_remove1
           split: if_splits sum.splits prod.splits)

text \<open>\<open>for event in entity._events\<close>: Python's list iterator keeps an index into
  the list object and reads the list as it is at each step, so a removal during the
  loop moves the later listeners one position down under the index.\<close>

function broadcast_events :: "action \<Rightarrow> nat \<Rightarrow> pval list \<Rightarrow> ref \<Rightarrow> nat \<Rightarrow> game \<Rightarrow> error + game" where
  "broadcast_events self at' as entity i g =
     (if i < length (events g entity) then
        (case broadcast_event self at' as entity (events g entity ! i) g of
           Inl err \<Rightarrow> Inl err
         | Inr g' \<Rightarrow> broadcast_events self at' as entity (Suc i) g')
      else Inr g)"
  by pat_completeness auto
termination
proof (relation "measure (\<lambda>(self, at', as, entity, i, g). length (events g entity) - i)", goal_cases)
  case 1
  show ?case by simp
next
  case (2 self at' as entity i g g')
  then show ?case
    using broadcast_event_length [of self at' as entity "events g entity ! i" g g'] by simp
qed

text \<open>\<open>for entity in chain(game.hands, game.entities)\<close>: both collections are
  read when the loop starts.\<close>

fun broadcast_entities :: "action \<Rightarrow> nat \<Rightarrow> pval list \<Rightarrow> ref list \<Rightarrow> game \<Rightarrow> error + game" where
  "broadcast_entities self at' as [] g = Inr g"
| "broadcast_entities self at' as (entity # rest) g =
     (if ignore_events (attrs g entity) then broadcast_entities self at' as rest g
      else (case broadcast_events self at' as entity 0 g of
              Inl err \<Rightarrow> Inl err
            | Inr g' \<Rightarrow> broadcast_entities self at' as rest g'))"

definition broadcast :: "action \<Rightarrow> game \<Rightarrow> nat \<Rightarrow> pval list \<Rightarrow> error + game" where
  "broadcast self g at' as = broadcast_entities self at' as (hands g @ entities g) g"

text \<open>The items of the list that \<open>gather\<close> builds: \<open>result.append((entity,
  action))\<close> adds a pair, and \<open>result += (entity, action(entity, *args))\<close> adds the
  two members of the tuple, the entity and the list that the callable returned.\<close>

datatype gitem = GPair ref action | GEntity ref | GActions "action list"

fun gather_actions :: "follow_up list \<Rightarrow> ref \<Rightarrow> pval list \<Rightarrow> gitem list" where
  "gather_actions [] entity as = []"
| "gather_actions (FCallable f # rest) entity as =
     [GEntity entity, GActions (f entity as)] @ gather_actions rest entity as"
| "gather_actions (FAction a # rest) entity as = GPair entity a # gather_actions rest entity as"

definition gather_event :: "action \<Rightarrow> nat \<Rightarrow> pval list \<Rightarrow> ref \<Rightarrow> event_listener \<Rightarrow> gitem list \<times> game \<Rightarrow> error + (gitem list \<times> game)" where
  "gather_event self at' as entity event rg =
     (case rg of (result, g) \<Rightarrow>
        if ev_zone event \<noteq> zone (attrs g entity) then Inr (result, g)
        else if isinstance (cls (trigger event)) (cls self) \<and> at event = at' then
          (case matches (trigger event) g entity as (random g) of
             Inl err \<Rightarrow> Inl err
           | Inr (m, r') \<Rightarrow>
               if m then
                 (let g1 = g\<lparr>random := r'\<rparr>;
                      result1 = result @ gather_actions (actions event) entity as
                  in if once event
                     then Inr (result1, g1\<lparr>events := (events g1)(entity := remove1 event (events g1 entity))\<rparr>)
                     else Inr (result1, g1))
               else Inr (result, g\<lparr>random := r'\<rparr>))
        else Inr (result, g))"

lemma gather_event_length:
  "gather_event self at' as entity event (result, g) = Inr (result', g') \<Longrightarrow>
   length (events g' entity) \<le> length (events g entity)"
  by (auto simp: gather_event_def Let_def length_remove1
           split: if_splits sum.splits prod.splits)

function gather_events :: "action \<Rightarrow> nat \<Rightarrow> pval list \<Rightarrow> ref \<Rightarrow> nat \<Rightarrow> gitem list \<Rightarrow> game \<Rightarrow> error + (gitem list \<times> game)" where
  "gather_events self at' as entity i result g =
     (if i < length (events g entity) then
        (case gather_event self at' as entity (events g entity ! i) (result, g) of
           Inl err \<Rightarrow> Inl err
         | Inr (result', g') \<Rightarrow> gather_events self at' as entity (Suc i) result' g')
      else Inr (result, g))"
  by pat_completeness auto
termination
proof (relation "measure (\<lambda>(self, at', as, entity, i, result, g). length (events g entity) - i)", goal_cases)
  case 1
  show ?case by simp
next
  case (2 self at' as entity i result g x2 result' g')
  then show ?case
    using gather_event_length [of self at' as entity "events g entity ! i" result g result' g']
    by auto
qed

fun gather_entities :: "action \<Rightarrow> nat \<Rightarrow> pval list \<Rightarrow> ref list \<Rightarrow> gitem list \<Rightarrow> game \<Rightarrow> error + (gitem list \<times> game)" where
  "gather_entities self at' as [] result g = Inr (result, g)"
| "gather_entities self at' as (entity # rest) result g =
     (if ignore_events (attrs g entity) then gather_entities self at' as rest result g
      else (case gather_events self at' as entity 0 result g of
              Inl err \<Rightarrow> Inl err
            | Inr (result', g') \<Rightarrow> gather_entities self at' as rest result' g'))"

text \<open>The two loops of \<open>gather\<close>, up to the line that sorts.\<close>

definition gather_scan :: "action \<Rightarrow> game \<Rightarrow> nat \<Rightarrow> pval list \<Rightarrow> error + (gitem list \<times> game)" where
  "gather_scan self g at' as = gather_entities self at' as (hands g @ entities g) [] g"

text \<open>\<open>Action.gather\<close>. After the loops comes
  \<open>result.sort(key = x[1].order_of_play)\<close>. The argument is evaluated before
  \<open>sort\<close> is called, and no name \<open>x\<close> is bound in the method, the class or the
  module: the line raises NameError, and \<open>return result\<close> is not reached.\<close>

definition gather :: "action \<Rightarrow> game \<Rightarrow> nat \<Rightarrow> pval list \<Rightarrow> error + (gitem list \<times> game)" where
  "gather self g at' as =
     (case gather_scan self g at' as of
        Inl err \<Rightarrow> Inl err
      | Inr (result, g') \<Rightarrow> Inl NameError)"

text \<open>\<open>Deathrattle.gather\<close>: the loop, then the same line.\<close>

fun Deathrattle_gather_loop :: "deathrattle list \<Rightarrow> ref \<Rightarrow> bool \<Rightarrow> gitem list" where
  "Deathrattle_gather_loop [] target extra = []"
| "Deathrattle_gather_loop (d # rest) target extra =
     (let item = (case d of DCallable f \<Rightarrow> GActions (f target) | DActions acts \<Rightarrow> GActions acts)
      in [GEntity target, item] @ (if extra then [GEntity target, item] else [])
         @ Deathrattle_gather_loop rest target extra)"

definition Deathrattle_gather :: "game \<Rightarrow> ref \<Rightarrow> error + gitem list" where
  "Deathrattle_gather g target =
     (case Deathrattle_gather_loop (deathrattles g target) target
             (extra_deathrattles (attrs g (controller (attrs g target)))) of
        result \<Rightarrow> Inl NameError)"

text \<open>\<open>Death.do\<close>: the broadcast, the gather, the deathrattles of the target, and
  a second line \<open>consequences_of_death.sort(key = x[1].order_of_play)\<close> with the
  same unbound name, before the loop that queues the consequences.\<close>

definition Death_do :: "action \<Rightarrow> ref \<Rightarrow> game \<Rightarrow> ref \<Rightarrow> error + game" where
  "Death_do self source g target =
     (case broadcast self g ON [PEnt target] of
        Inl err \<Rightarrow> Inl err
      | Inr g1 \<Rightarrow>
          (case gather self g1 ON [PEnt target] of
             Inl err \<Rightarrow> Inl err
           | Inr (consequences_of_death, g2) \<Rightarrow>
               (if deathrattles g2 target \<noteq> []
                then (case Deathrattle_gather g2 target of
                        Inl err \<Rightarrow> Inl err
                      | Inr from_deathrattles \<Rightarrow> Inl NameError)
                else Inl NameError)))"

subsection \<open>TargetedAction.trigger\<close>

text \<open>What a \<open>do\<close> method returns: \<open>None\<close>, a list, or the value of a call
  into code outside these files.\<close>

datatype ret = RNone | RList "pval list" | RExternal

text \<open>The members of the list that \<open>evaluate_selectors\<close> returns: a list of
  targets, the first result of a nested action, or an argument as it is.\<close>

datatype evaluated = EList "pval list" | ERet ret | ERaw arg

text \<open>\<open>self.do(source, game, *self.get_args(source, game, target))\<close> is
  dispatched on the class of the action; \<open>trigger\<close> takes the method as a
  parameter.\<close>

type_synonym do_fn = "action \<Rightarrow> ref \<Rightarrow> game \<Rightarrow> pval \<Rightarrow> error + (ret \<times> game)"

text \<open>The class attribute \<open>selectors\<close> of \<open>TargetedAction\<close>.\<close>

definition selectors :: "string list" where
  "selectors = [''targets'']"

text \<open>\<open>for target in targets\<close> over \<open>args[0]\<close>: \<open>None\<close> and an argument
  that is no list cannot be iterated. A value returned by a call outside these files
  is opaque and is not taken for a list.\<close>

fun targets_of :: "evaluated \<Rightarrow> error + pval list" where
  "targets_of (EList ts) = Inr ts"
| "targets_of (ERet (RList ts)) = Inr ts"
| "targets_of _ = Inl TypeError"

fun do_targets :: "do_fn \<Rightarrow> action \<Rightarrow> ref \<Rightarrow> pval list \<Rightarrow> ret list \<Rightarrow> game \<Rightarrow> error + (ret list \<times> game)" where
  "do_targets do self source [] ret g = Inr (ret, g)"
| "do_targets do self source (target # targets) ret g =
     (case do self source g target of
        Inl err \<Rightarrow> Inl err
      | Inr (x, g') \<Rightarrow> do_targets do self source targets (ret @ [x]) g')"

lemma size_init_args: "size_list size (init_args self) < size self"
  by (cases self) simp

text \<open>
  \<open>TargetedAction.trigger\<close> with its loop over \<open>range(self.times)\<close>
  (\<open>trigger_loop\<close>, counting the repeats that are left), the body of that loop
  (\<open>trigger_once\<close>) and \<open>evaluate_selectors\<close> over
  \<open>zip(self.args, self._args)\<close>. An argument named in \<open>selectors\<close> is an
  entity, an action (triggered, and its first result taken), or is asked to
  \<open>eval\<close> the game. The two calls of \<open>game.manager\<close> are recorded.
\<close>

function (sequential)
    TargetedAction_trigger :: "do_fn \<Rightarrow> action \<Rightarrow> ref \<Rightarrow> game \<Rightarrow> error + (ret list \<times> game)"
and trigger_loop :: "do_fn \<Rightarrow> action \<Rightarrow> ref \<Rightarrow> nat \<Rightarrow> ret list \<Rightarrow> game \<Rightarrow> error + (ret list \<times> game)"
and trigger_once :: "do_fn \<Rightarrow> action \<Rightarrow> ref \<Rightarrow> ret list \<Rightarrow> game \<Rightarrow> error + (ret list \<times> game)"
and evaluate_selectors :: "do_fn \<Rightarrow> string list \<Rightarrow> arg list \<Rightarrow> ref \<Rightarrow> game \<Rightarrow> error + (evaluated list \<times> game)"
where
  "TargetedAction_trigger do self source g =
     (case times_field self of
        None \<Rightarrow> Inl AttributeError
      | Some t \<Rightarrow> trigger_loop do self source (nat t) [] g)"
| "trigger_loop do self source 0 ret g = Inr (ret, g)"
| "trigger_loop do self source (Suc i) ret g =
     (case trigger_once do self source ret g of
        Inl err \<Rightarrow> Inl err
      | Inr (ret', g') \<Rightarrow> trigger_loop do self source i ret' g')"
| "trigger_once do self source ret g =
     (case evaluate_selectors do (class_args (cls self)) (init_args self) source g of
        Inl err \<Rightarrow> Inl err
      | Inr (as, g1) \<Rightarrow>
          (case as of
             [] \<Rightarrow> Inl IndexError
           | a0 # _ \<Rightarrow>
               (case targets_of a0 of
                  Inl err \<Rightarrow> Inl err
                | Inr targets \<Rightarrow>
                    (case do_targets do self source targets ret
                            (g1\<lparr>calls := calls g1 @ [ManagerAction (cls self) source targets]\<rparr>) of
                       Inl err \<Rightarrow> Inl err
                     | Inr (ret', g2) \<Rightarrow>
                         Inr (ret', g2\<lparr>calls := calls g2 @ [ManagerActionEnd (cls self) source targets]\<rparr>)))))"
| "evaluate_selectors do (k # ks) (v # vs) source g =
     (case (if k \<in> set selectors then
              (case v of
                 EntityArg e \<Rightarrow> Inr (EList [PEnt e], g)
               | ActionArg act \<Rightarrow>
                   (if is_targeted_action (cls act) then
                      (case TargetedAction_trigger do act source g of
                         Inl err \<Rightarrow> Inl err
                       | Inr (rs, g') \<Rightarrow>
                           (case rs of [] \<Rightarrow> Inl IndexError | x # _ \<Rightarrow> Inr (ERet x, g')))
                    else if is_game_action (cls act) then Inl TypeError
                    else Inl AttributeError)
               | SelectorArg sel \<Rightarrow>
                   (case selector_eval sel (game_iter g) (snapshot g (PEnt source)) (random g) of
                      Inl err \<Rightarrow> Inl err
                    | Inr (res, r') \<Rightarrow> Inr (EList (map object_of res), g\<lparr>random := r'\<rparr>))
               | _ \<Rightarrow> Inl AttributeError)
            else Inr (ERaw v, g)) of
        Inl err \<Rightarrow> Inl err
      | Inr (x, g') \<Rightarrow>
          (case evaluate_selectors do ks vs source g' of
             Inl err \<Rightarrow> Inl err
           | Inr (xs, g'') \<Rightarrow> Inr (x # xs, g'')))"
| "evaluate_selectors do _ _ source g = Inr ([], g)"
  by pat_completeness auto
termination
  by (relation "inv_image (less_than <*lex*> less_than <*lex*> less_than)
       (\<lambda>x. case x of
          Inl (Inl (do, self, source, g)) \<Rightarrow> (size self, 3, 0)
        | Inl (Inr (do, self, source, i, ret, g)) \<Rightarrow> (size self, 2, i)
        | Inr (Inl (do, self, source, ret, g)) \<Rightarrow> (size self, 1, 0)
        | Inr (Inr (do, ks, vs, source, g)) \<Rightarrow> (size_list size vs, 0, 0))")
     (auto split: if_splits simp: size_init_args)

subsection \<open>Heal.do and Draw.do\<close>

text \<open>\<open>Heal.do\<close>. With \<open>outgoing_healing_adjustment\<close> on the controller of the
  source the heal is handed to \<open>source.hit\<close>. Otherwise the amount is multiplied by
  \<open>healing_double + 1\<close>, cut to the damage of the target, and if it is not zero
  the damage is reduced and the heal is broadcast.\<close>

definition Heal_do :: do_fn where
  "Heal_do self source g target =
     (if outgoing_healing_adjustment (attrs g (controller (attrs g source))) then
        (case get_attr self ''amount'' of
           None \<Rightarrow> Inl AttributeError
         | Some a \<Rightarrow> Inr (RExternal, g\<lparr>calls := calls g @ [EntityHit source target a]\<rparr>))
      else
        (case get_attr self ''amount'' of
           None \<Rightarrow> Inl AttributeError
         | Some (IntArg n) \<Rightarrow>
             (case target of
                PNum _ \<Rightarrow> Inl AttributeError
              | PEnt t \<Rightarrow>
                  (let amount = n * (healing_double (attrs g (controller (attrs g source))) + 1);
                       amount = min amount (damage (attrs g t))
                   in if amount \<noteq> 0 then
                        (case broadcast self
                                (g\<lparr>attrs := (attrs g)(t := (attrs g t)\<lparr>damage := damage (attrs g t) - amount\<rparr>)\<rparr>)
                                ON [PEnt t, PNum amount] of
                           Inl err \<Rightarrow> Inl err
                         | Inr g' \<Rightarrow> Inr (RNone, g'))
                      else Inr (RNone, g)))
         | Some _ \<Rightarrow> Inl TypeError))"

text \<open>\<open>Draw.do\<close>: \<open>target.deck[-1]\<close> is the last card of the deck list.\<close>

definition Draw_do :: do_fn where
  "Draw_do self source g target =
     (case target of
        PNum _ \<Rightarrow> Inl AttributeError
      | PEnt t \<Rightarrow>
          (if deck (attrs g t) = [] then
             Inr (RList [], g\<lparr>calls := calls g @ [Fatigue t]\<rparr>)
           else
             (let card = last (deck (attrs g t))
              in Inr (RList [PEnt card], g\<lparr>calls := calls g @ [CardDraw card]\<rparr>))))"

section \<open>Example games\<close>

text \<open>A small game used to run the definitions: three entities in play, undamaged,
  all controlled by entity 0, with no listeners and empty decks.\<close>

definition example_entity :: entity where
  "example_entity =
     \<lparr>zone = PLAY, ignore_events = False, controller = 0, damage = 0, deck = [],
      outgoing_healing_adjustment = False, healing_double = 0, extra_deathrattles = False\<rparr>"

definition example_game :: game where
  "example_game =
     \<lparr>attrs = (\<lambda>r. example_entity), events = (\<lambda>r. []), deathrattles = (\<lambda>r. []),
      hands = [], entities = [0, 1, 2], all_entities = [0, 1, 2], queue = [], calls = [],
      random = []\<rparr>"



text \<open>A \<open>Death\<close> pattern without arguments, two \<open>Draw\<close> actions stamped in this
  order, and the example game with listeners on entity 2.\<close>

definition death_pattern :: action where
  "death_pattern = fst (construct Death [] 0)"

definition draw_first :: action where
  "draw_first = Action Draw (Some 1) (Some 1) [EntityArg 0]"

definition draw_second :: action where
  "draw_second = Action Draw (Some 2) (Some 1) [EntityArg 0]"

definition listening_game :: "event_listener list \<Rightarrow> game" where
  "listening_game listeners = example_game\<lparr>events := (events example_game)(2 := listeners)\<rparr>"

section \<open>Properties of the selector interpreter\<close>

subsection \<open>Plain programs are postfix boolean expressions\<close>

lemma run_ops_plain_append:
  "depth_after p n = Some m \<Longrightarrow> length st0 = n \<Longrightarrow>
   \<exists>st1. length st1 = m \<and> (\<forall>st q. run_ops (p @ q) e s (st0 @ st) = run_ops q e s (st1 @ st))"
proof (induction p n arbitrary: st0 rule: depth_after.induct)
  case (1 n)
  then show ?case by auto
next
  case (2 pr ops n)
  from 2(1) [of "pr e s # st0"] 2(2) 2(3) show ?case by auto
next
  case (3 ops n)
  then obtain a b st' where st0: "st0 = a # b # st'"
    by (cases st0; cases "tl st0") (auto split: if_splits)
  from 3 st0 have "depth_after ops (n - 1) = Some m" "length ((a \<and> b) # st') = n - 1"
    by (auto split: if_splits)
  from 3(1) [OF _ this] 3(2) st0 show ?case by (auto split: if_splits)
next
  case (4 ops n)
  then obtain a b st' where st0: "st0 = a # b # st'"
    by (cases st0; cases "tl st0") (auto split: if_splits)
  from 4 st0 have "depth_after ops (n - 1) = Some m" "length ((a \<or> b) # st') = n - 1"
    by (auto split: if_splits)
  from 4(1) [OF _ this] 4(2) st0 show ?case by (auto split: if_splits)
next
  case (5 ops n)
  then obtain a st' where st0: "st0 = a # st'"
    by (cases st0) (auto split: if_splits)
  from 5 st0 have "depth_after ops n = Some m" "length ((\<not> a) # st') = n"
    by (auto split: if_splits)
  from 5(1) [OF _ this] 5(2) st0 show ?case by (auto split: if_splits)
qed simp_all

lemma plain_run:
  assumes "plain p"
  shows "\<exists>v. \<forall>st q. run_ops (p @ q) e s st = run_ops q e s (v # st)"
proof -
  from assms have "depth_after p 0 = Some 1" by (simp add: plain_def)
  from run_ops_plain_append [OF this, of "[]" e s]
  obtain st1 where l: "length st1 = 1" and r: "\<forall>st q. run_ops (p @ q) e s st = run_ops q e s (st1 @ st)"
    by auto
  from l obtain v where "st1 = [v]" by (cases st1) auto
  with r show ?thesis by auto
qed

lemma plain_test_append:
  assumes "plain p"
  shows "run_ops (p @ q) e s st = run_ops q e s (passes p s e # st)"
proof -
  from plain_run [OF assms, of e s] obtain v where
    v: "\<And>st q. run_ops (p @ q) e s st = run_ops q e s (v # st)" by blast
  from v [of "[]" "[]"] have "run_ops p e s [] = Inr ([v], [])" by simp
  then have "passes p s e = v" by (simp add: passes_def Selector_test_def)
  with v show ?thesis by simp
qed


lemma plain_test_Merge:
  "plain p \<Longrightarrow> Selector_test (p @ Merge # q) e s = Inr (passes p s e, q)"
  using plain_test_append [of p "Merge # q" e s "[]"] by (simp add: Selector_test_def)

lemma filter_test_const:
  assumes "\<And>e. Selector_test opc e s = Inr (f e, pc)" and "es \<noteq> []"
  shows "filter_test opc es s = Inr (filter f es, pc)"
  using assms(2)
proof (induction es rule: list_nonempty_induct)
  case (single x)
  then show ?case by (simp add: assms(1))
next
  case (cons x xs)
  then obtain y ys where "xs = y # ys" by (cases xs) auto
  with cons show ?case by (simp add: assms(1))
qed



subsection \<open>Sampling without replacement\<close>

lemma sample_Suc_fst:
  "fst (sample r (x # xs) (Suc k)) =
     (x # xs) ! (case r of [] \<Rightarrow> 0 | d # _ \<Rightarrow> d mod length (x # xs))
     # fst (sample (tl r)
              (take (case r of [] \<Rightarrow> 0 | d # _ \<Rightarrow> d mod length (x # xs)) (x # xs)
               @ drop (Suc (case r of [] \<Rightarrow> 0 | d # _ \<Rightarrow> d mod length (x # xs))) (x # xs)) k)"
  by (simp add: Let_def case_prod_beta)

lemma sample_length: "length (fst (sample r xs k)) = min k (length xs)"
proof (induction r xs k rule: sample.induct)
  case (3 r x xs k)
  define i where "i = (case r of [] \<Rightarrow> 0 | d # _ \<Rightarrow> d mod length (x # xs))"
  have i: "i < length (x # xs)" by (auto simp: i_def split: list.splits)
  have l: "length (take i (x # xs) @ drop (Suc i) (x # xs)) = length xs"
    using i by auto
  have "length (fst (sample (tl r) (take i (x # xs) @ drop (Suc i) (x # xs)) k))
        = min k (length (take i (x # xs) @ drop (Suc i) (x # xs)))"
    using 3 [of i] by (simp add: i_def)
  then have "length (fst (sample r (x # xs) (Suc k))) = Suc (min k (length xs))"
    unfolding sample_Suc_fst i_def [symmetric] l by simp
  then show ?case by simp
qed simp_all

lemma sample_mset: "mset (fst (sample r xs k)) \<subseteq># mset xs"
proof (induction r xs k rule: sample.induct)
  case (3 r x xs k)
  define i where "i = (case r of [] \<Rightarrow> 0 | d # _ \<Rightarrow> d mod length (x # xs))"
  have i: "i < length (x # xs)" by (auto simp: i_def split: list.splits)
  define rest where "rest = take i (x # xs) @ drop (Suc i) (x # xs)"
  have "x # xs = take i (x # xs) @ (x # xs) ! i # drop (Suc i) (x # xs)"
    using i by (rule id_take_nth_drop)
  then have "mset (x # xs) = mset (take i (x # xs) @ (x # xs) ! i # drop (Suc i) (x # xs))"
    by simp
  then have m: "mset (x # xs) = add_mset ((x # xs) ! i) (mset rest)"
    unfolding rest_def by simp
  have ih: "mset (fst (sample (tl r) rest k)) \<subseteq># mset rest"
    using 3 [of i] by (simp add: i_def rest_def)
  have "mset (fst (sample r (x # xs) (Suc k))) =
        add_mset ((x # xs) ! i) (mset (fst (sample (tl r) rest k)))"
    unfolding sample_Suc_fst i_def [symmetric] rest_def by simp
  with m ih show ?case by simp
qed simp_all

lemma Selector_eval_random:
  assumes "plain p" and "ents \<noteq> []"
  shows "Selector_eval ([MergeFilter] @ p @ [Merge, SelectRandom n fallback, Unmerge]) ents source r =
     (case merge (SelectRandom n fallback) (filter (passes p source) ents) r of
        Inl err \<Rightarrow> Inl err | Inr (ys, r') \<Rightarrow> Inr (ys, r'))"
proof -
  from assms(2) obtain e es where es: "ents = e # es" by (cases ents) auto
  have f: "filter_test (p @ [Merge, SelectRandom n fallback, Unmerge]) (e # es) source =
      Inr (filter (passes p source) (e # es), [SelectRandom n fallback, Unmerge])"
    by (rule filter_test_const) (simp_all add: plain_test_Merge [OF assms(1)])
  show ?thesis
    unfolding es Selector_eval_def
    by (simp add: merge_step_def f split: sum.splits prod.splits list.splits option.splits)
qed

lemma mset_subset_distinct:
  assumes "mset ys \<subseteq># mset xs" and "distinct xs"
  shows "distinct ys"
proof -
  have "count (mset xs) a \<le> 1" for a
    using assms(2) by (simp add: distinct_count_atmost_1)
  then have le: "count (mset ys) a \<le> 1" for a
    using mset_subset_eq_count [OF assms(1), of a] order_trans by blast
  have "count (mset ys) a = (if a \<in> set ys then 1 else 0)" for a
    using le [of a] by (cases "a \<in> set ys") (auto simp: count_mset_0_iff le_Suc_eq)
  then show ?thesis by (simp add: distinct_count_atmost_1)
qed







subsection \<open>Evaluation over an empty or fully filtered collection\<close>




subsection \<open>Union and difference\<close>


















subsection \<open>Random selectors\<close>

text \<open>
  Claim C6, as the code has it. For a random selector with a sample size \<open>n \<ge> 0\<close>
  over a base selector with a plain program, and a collection that is not empty:
  evaluation does not raise; when no entity passes the base program the result is the
  singleton of the fallback if one is set and is true, and the empty list if none is
  set or the one set is false, and the random source is untouched; when \<open>k > 0\<close>
  entities pass, the result has \<open>min n k\<close> members taken from them at different
  positions (a sub-multiset, hence distinct members when the collection has no
  duplicates). Multiplying by \<open>m\<close> gives a random selector over the same base
  selector with sample size \<open>n * m\<close> (and no fallback), whose program holds the base
  program once.
\<close>

theorem RandomSelector_sample_contract:
  assumes "plain (program sel)" and "ents \<noteq> []" and "0 \<le> n"
  shows "\<exists>ys r'.
     selector_eval (RandomSelector n fallback sel) ents source r = Inr (ys, r') \<and>
     (filter (passes (program sel) source) ents = [] \<longrightarrow>
        ys = (case fallback of Some (v, True) \<Rightarrow> [v] | _ \<Rightarrow> []) \<and> r' = r) \<and>
     (filter (passes (program sel) source) ents \<noteq> [] \<longrightarrow>
        length ys = min (nat n) (length (filter (passes (program sel) source) ents)) \<and>
        mset ys \<subseteq># mset (filter (passes (program sel) source) ents) \<and>
        (distinct ents \<longrightarrow> distinct ys)) \<and>
     RandomSelector_mul (RandomSelector n fallback sel) m = Inr (RandomSelector (n * m) None sel) \<and>
     program (RandomSelector (n * m) None sel) =
        [MergeFilter] @ program sel @ [Merge, SelectRandom (n * m) None, Unmerge]"
proof -
  let ?c = "filter (passes (program sel) source) ents"
  have ev: "selector_eval (RandomSelector n fallback sel) ents source r =
      (case merge (SelectRandom n fallback) ?c r of
         Inl err \<Rightarrow> Inl err | Inr (ys, r') \<Rightarrow> Inr (ys, r'))"
    using Selector_eval_random [OF assms(1,2), of n fallback source r] by simp
  show ?thesis
  proof (cases "?c = []")
    case True
    with assms(3) show ?thesis
      unfolding ev by (simp add: random_sample_def split: option.splits prod.splits bool.splits)
  next
    case False
    have m: "merge (SelectRandom n fallback) ?c r = Inr (sample r ?c (nat (min (int (length ?c)) n)))"
      using False assms(3) by (cases ?c) (simp_all add: random_sample_def)
    obtain ys r' where s: "sample r ?c (nat (min (int (length ?c)) n)) = (ys, r')"
      by (cases "sample r ?c (nat (min (int (length ?c)) n))")
    have l: "length ys = min (nat n) (length ?c)"
      using sample_length [of r ?c "nat (min (int (length ?c)) n)"] s assms(3) by auto
    have sub: "mset ys \<subseteq># mset ?c"
      using sample_mset [of r ?c "nat (min (int (length ?c)) n)"] s by simp
    have d: "distinct ents \<longrightarrow> distinct ys"
      using mset_subset_distinct [OF sub] by simp
    from False l sub d show ?thesis unfolding ev m s by simp
  qed
qed

theorem RandomSelector_sample_contract_witness:
  "plain (program (Selector [Pred (\<lambda>e s. e < (4::int))])) \<and> [1, 2, 3, 7::int] \<noteq> [] \<and> (0::int) \<le> 2 \<and>
   selector_eval (RandomSelector 2 None (Selector [Pred (\<lambda>e s. e < (4::int))])) [1, 2, 3, 7] 0 [5, 0]
     = Inr ([3, 1], []) \<and>
   selector_eval (RandomSelector 2 (Some (9, True)) (Selector [Pred (\<lambda>e s. e < (4::int))])) [7, 8] 0 [5, 0]
     = Inr ([9], [5, 0]) \<and>
   selector_eval (RandomSelector 2 (Some (0, False)) (Selector [Pred (\<lambda>e s. e < (4::int))])) [7, 8] 0 [5, 0]
     = Inr ([], [5, 0]) \<and>
   RandomSelector_mul (RandomSelector 2 None (Selector [Pred (\<lambda>e s. e < (4::int))])) 3
     = Inr (RandomSelector 6 None (Selector [Pred (\<lambda>e s. e < (4::int))]))"
proof -
  have p: "plain (program (Selector [Pred (\<lambda>e s. e < (4::int))]))"
    by (simp add: plain_def)
  have n: "[1, 2, 3, 7::int] \<noteq> []" and z: "(0::int) \<le> 2"
    by simp_all
  have s: "sample [5, 0] [1, 2, 3::int] 2 = ([3, 1], [])"
    by code_simp
  have e1: "selector_eval (RandomSelector 2 None (Selector [Pred (\<lambda>e s. e < (4::int))])) [1, 2, 3, 7] 0 [5, 0]
     = Inr ([3, 1], [])"
    by (simp add: Selector_eval_def Selector_test_def merge_step_def random_sample_def s)
  have e2: "selector_eval (RandomSelector 2 (Some (9, True)) (Selector [Pred (\<lambda>e s. e < (4::int))])) [7, 8] 0 [5, 0]
     = Inr ([9], [5, 0])"
    by (simp add: Selector_eval_def Selector_test_def merge_step_def)
  have e2': "selector_eval (RandomSelector 2 (Some (0, False)) (Selector [Pred (\<lambda>e s. e < (4::int))])) [7, 8] 0 [5, 0]
     = Inr ([], [5, 0])"
    by (simp add: Selector_eval_def Selector_test_def merge_step_def random_sample_def)
  from RandomSelector_sample_contract [OF p n z, of None 0 "[5, 0]" 3]
  have e3: "RandomSelector_mul (RandomSelector 2 None (Selector [Pred (\<lambda>e s. e < (4::int))])) 3
     = Inr (RandomSelector (2 * 3) None (Selector [Pred (\<lambda>e s. e < (4::int))]))"
    by blast
  from p n z e1 e2 e2' e3 show ?thesis by simp
qed

text \<open>Over the empty collection no entity passes, the fallback is set and true, and
  the result is empty. Over a collection of which no entity passes, a fallback that is
  set but false (the number 0) is not returned either.\<close>

theorem RandomSelector_empty_input_counterexample:
  "filter (passes (program (Selector [Pred (\<lambda>e s. e < (4::int))])) 0) [] = [] \<and>
   selector_eval (RandomSelector 1 (Some (9, True)) (Selector [Pred (\<lambda>e s. e < (4::int))])) [] 0 [] = Inr ([], []) \<and>
   selector_eval (RandomSelector 1 (Some (9, True)) (Selector [Pred (\<lambda>e s. e < (4::int))])) [] 0 [] \<noteq> Inr ([9], []) \<and>
   filter (passes (program (Selector [Pred (\<lambda>e s. e < (4::int))])) 0) [7, 8] = [] \<and>
   selector_eval (RandomSelector 1 (Some (0, False)) (Selector [Pred (\<lambda>e s. e < (4::int))])) [7, 8] 0 [] = Inr ([], []) \<and>
   selector_eval (RandomSelector 1 (Some (0, False)) (Selector [Pred (\<lambda>e s. e < (4::int))])) [7, 8] 0 [] \<noteq> Inr ([0], [])"
  by (simp add: Selector_eval_def Selector_test_def merge_step_def random_sample_def passes_def)




section \<open>Properties of the actions\<close>

text \<open>The loops over the listeners are unfolded by hand.\<close>

declare broadcast_events.simps [simp del] gather_events.simps [simp del]

subsection \<open>Draw\<close>

text \<open>
  Claim C8. \<open>Draw.do\<close> on a player whose deck is not empty calls \<open>draw\<close> on the
  last card of the deck list, its top, and returns that card; on a player whose deck is
  empty it calls \<open>fatigue\<close> on the player and returns the empty list. Neither
  raises. Triggering a \<open>Draw\<close> action on a player does exactly this between the two
  notifications of the manager.
\<close>

theorem Draw_draws_top_or_fatigues:
  "(deck (attrs g t) \<noteq> [] \<longrightarrow>
      Draw_do self source g (PEnt t) =
        Inr (RList [PEnt (last (deck (attrs g t)))],
             g\<lparr>calls := calls g @ [CardDraw (last (deck (attrs g t)))]\<rparr>)) \<and>
   (deck (attrs g t) = [] \<longrightarrow>
      Draw_do self source g (PEnt t) = Inr (RList [], g\<lparr>calls := calls g @ [Fatigue t]\<rparr>)) \<and>
   (cls self = Draw \<and> times_field self = Some 1 \<and> init_args self = [EntityArg t] \<longrightarrow>
      TargetedAction_trigger Draw_do self source g =
        Inr ([if deck (attrs g t) = [] then RList [] else RList [PEnt (last (deck (attrs g t)))]],
             g\<lparr>calls := calls g @
                 [ManagerAction Draw source [PEnt t],
                  if deck (attrs g t) = [] then Fatigue t else CardDraw (last (deck (attrs g t))),
                  ManagerActionEnd Draw source [PEnt t]]\<rparr>))"
  by (simp add: Draw_do_def selectors_def Let_def)

theorem Draw_draws_top_or_fatigues_witness:
  "Draw_do (Action Draw (Some 1) (Some 1) [EntityArg 1]) 0
      (example_game\<lparr>attrs := (attrs example_game)(1 := example_entity\<lparr>deck := [7, 8, 9]\<rparr>)\<rparr>) (PEnt 1)
     = Inr (RList [PEnt 9],
            example_game\<lparr>attrs := (attrs example_game)(1 := example_entity\<lparr>deck := [7, 8, 9]\<rparr>),
                          calls := [CardDraw 9]\<rparr>) \<and>
   Draw_do (Action Draw (Some 1) (Some 1) [EntityArg 1]) 0 example_game (PEnt 1)
     = Inr (RList [], example_game\<lparr>calls := [Fatigue 1]\<rparr>) \<and>
   TargetedAction_trigger Draw_do (Action Draw (Some 1) (Some 1) [EntityArg 1]) 0 example_game
     = Inr ([RList []],
            example_game\<lparr>calls := [ManagerAction Draw 0 [PEnt 1], Fatigue 1, ManagerActionEnd Draw 0 [PEnt 1]]\<rparr>)"
  using Draw_draws_top_or_fatigues
          [of "example_game\<lparr>attrs := (attrs example_game)(1 := example_entity\<lparr>deck := [7, 8, 9]\<rparr>)\<rparr>" 1
              "Action Draw (Some 1) (Some 1) [EntityArg 1]" 0]
        Draw_draws_top_or_fatigues
          [of example_game 1 "Action Draw (Some 1) (Some 1) [EntityArg 1]" 0]
  by (simp add: example_game_def example_entity_def)

subsection \<open>Heal\<close>

text \<open>
  Claim C7, as the code has it. For a \<open>Heal\<close> action with a nominal amount
  \<open>n \<ge> 0\<close> whose source's controller has no \<open>outgoing_healing_adjustment\<close> and
  a \<open>healing_double\<close> count \<open>d \<ge> 0\<close>, on a target with damage \<open>\<ge> 0\<close>: the
  applied amount is \<open>n * (d + 1)\<close>, twice the nominal amount when \<open>d = 1\<close>, cut
  to the damage of the target; when it is zero, as on an undamaged target, the game is
  unchanged and nothing is broadcast; otherwise the damage is reduced by it and the
  result is that of broadcasting \<open>ON\<close> with the target and the applied amount.
  With \<open>outgoing_healing_adjustment\<close> the action hands the nominal amount to
  \<open>source.hit\<close> instead, on damaged and undamaged targets alike.
\<close>

theorem Heal_do_applied_amount:
  assumes "get_attr self ''amount'' = Some (IntArg n)"
      and "\<not> outgoing_healing_adjustment (attrs g (controller (attrs g source)))"
      and "0 \<le> n"
      and "0 \<le> healing_double (attrs g (controller (attrs g source)))"
      and "0 \<le> damage (attrs g t)"
  shows "(damage (attrs g t) = 0 \<longrightarrow> Heal_do self source g (PEnt t) = Inr (RNone, g)) \<and>
     0 \<le> min (n * (healing_double (attrs g (controller (attrs g source))) + 1)) (damage (attrs g t)) \<and>
     (min (n * (healing_double (attrs g (controller (attrs g source))) + 1)) (damage (attrs g t)) = 0 \<longrightarrow>
        Heal_do self source g (PEnt t) = Inr (RNone, g)) \<and>
     (min (n * (healing_double (attrs g (controller (attrs g source))) + 1)) (damage (attrs g t)) \<noteq> 0 \<longrightarrow>
        Heal_do self source g (PEnt t) =
          (case broadcast self
                  (g\<lparr>attrs := (attrs g)(t := (attrs g t)
                       \<lparr>damage := damage (attrs g t)
                          - min (n * (healing_double (attrs g (controller (attrs g source))) + 1))
                                (damage (attrs g t))\<rparr>)\<rparr>)
                  ON
                  [PEnt t,
                   PNum (min (n * (healing_double (attrs g (controller (attrs g source))) + 1))
                             (damage (attrs g t)))] of
             Inl err \<Rightarrow> Inl err
           | Inr g' \<Rightarrow> Inr (RNone, g')))"
proof -
  have "0 \<le> n * (healing_double (attrs g (controller (attrs g source))) + 1)"
    using assms(3,4) by simp
  then show ?thesis
    using assms(1,2,5) by (auto simp: Heal_do_def Let_def min_def)
qed

theorem Heal_do_applied_amount_witness:
  "get_attr (Action Heal (Some 1) (Some 1) [EntityArg 2, IntArg 5]) ''amount'' = Some (IntArg 5) \<and>
   Heal_do (Action Heal (Some 1) (Some 1) [EntityArg 2, IntArg 5]) 1
      (example_game\<lparr>attrs := (attrs example_game)(2 := example_entity\<lparr>damage := 3\<rparr>)\<rparr>) (PEnt 2)
     = Inr (RNone, example_game\<lparr>attrs := (attrs example_game)(2 := example_entity\<lparr>damage := 0\<rparr>)\<rparr>) \<and>
   Heal_do (Action Heal (Some 1) (Some 1) [EntityArg 2, IntArg 5]) 1 example_game (PEnt 2)
     = Inr (RNone, example_game)"
proof -
  have b: "broadcast self example_game at' as = Inr example_game" for self at' as
    by (simp add: broadcast_def example_game_def example_entity_def broadcast_events.simps)
  have b': "broadcast self (example_game\<lparr>attrs := (attrs example_game)(2 := example_entity\<lparr>damage := 0\<rparr>)\<rparr>) at' as
      = Inr (example_game\<lparr>attrs := (attrs example_game)(2 := example_entity\<lparr>damage := 0\<rparr>)\<rparr>)" for self at' as
    by (simp add: broadcast_def example_game_def example_entity_def broadcast_events.simps)
  have a: "get_attr (Action Heal (Some 1) (Some 1) [EntityArg 2, IntArg 5]) ''amount'' = Some (IntArg 5)"
    by simp
  have h: "\<not> outgoing_healing_adjustment (attrs example_game (controller (attrs example_game 1)))"
    by (simp add: example_game_def example_entity_def)
  show ?thesis
    using Heal_do_applied_amount
            [of "Action Heal (Some 1) (Some 1) [EntityArg 2, IntArg 5]" 5
                "example_game\<lparr>attrs := (attrs example_game)(2 := example_entity\<lparr>damage := 3\<rparr>)\<rparr>" 1 2]
          Heal_do_applied_amount
            [of "Action Heal (Some 1) (Some 1) [EntityArg 2, IntArg 5]" 5 example_game 1 2]
          a h
    by (simp add: b b' example_game_def [symmetric])
       (simp add: example_game_def example_entity_def)
qed

text \<open>With \<open>outgoing_healing_adjustment\<close> on the controller, a heal of an
  undamaged target calls \<open>source.hit\<close>.\<close>

theorem Heal_as_damage_counterexample:
  "damage (attrs (example_game\<lparr>attrs := (attrs example_game)
                    (0 := example_entity\<lparr>outgoing_healing_adjustment := True\<rparr>)\<rparr>) 2) = 0 \<and>
   Heal_do (Action Heal (Some 1) (Some 1) [EntityArg 2, IntArg 5]) 1
      (example_game\<lparr>attrs := (attrs example_game)
                    (0 := example_entity\<lparr>outgoing_healing_adjustment := True\<rparr>)\<rparr>) (PEnt 2)
     = Inr (RExternal,
            example_game\<lparr>attrs := (attrs example_game)
                    (0 := example_entity\<lparr>outgoing_healing_adjustment := True\<rparr>),
                  calls := [EntityHit 1 (PEnt 2) (IntArg 5)]\<rparr>) \<and>
   calls (snd (projr (Heal_do (Action Heal (Some 1) (Some 1) [EntityArg 2, IntArg 5]) 1
      (example_game\<lparr>attrs := (attrs example_game)
                    (0 := example_entity\<lparr>outgoing_healing_adjustment := True\<rparr>)\<rparr>) (PEnt 2))))
     \<noteq> calls (example_game\<lparr>attrs := (attrs example_game)
                    (0 := example_entity\<lparr>outgoing_healing_adjustment := True\<rparr>)\<rparr>)"
  by (simp add: Heal_do_def example_game_def example_entity_def)

subsection \<open>Sequence stamps\<close>

lemma construct_stamp:
  "construct c as counter = (a, counter') \<Longrightarrow>
     cls a = c \<and>
     (is_game_action c \<longrightarrow> order_of_play a = None \<and> counter' = counter) \<and>
     (\<not> is_game_action c \<longrightarrow> order_of_play a = Some (Suc counter) \<and> counter' = Suc counter)"
  by (auto simp: construct_def Action_init_def GameAction_init_def new_order_of_play_def
           split: if_splits)

lemma construct_all_bounds:
  "construct_all specs counter = (acts, counter') \<Longrightarrow>
     counter \<le> counter' \<and>
     (\<forall>n \<in> set (List.map_filter order_of_play acts). counter < n \<and> n \<le> counter')"
proof (induction specs arbitrary: counter acts counter')
  case Nil
  then show ?case by (simp add: List.map_filter_simps)
next
  case (Cons spec specs)
  obtain c as where spec: "spec = (c, as)" by (cases spec)
  obtain a c1 where a: "construct c as counter = (a, c1)" by (cases "construct c as counter")
  obtain rest c2 where r: "construct_all specs c1 = (rest, c2)" by (cases "construct_all specs c1")
  from Cons.prems spec a r have acts: "acts = a # rest" and c': "counter' = c2" by simp_all
  from construct_stamp [OF a] Cons.IH [OF r] show ?case
    unfolding acts c' by (cases "is_game_action c") (auto simp: List.map_filter_simps)
qed

lemma construct_all_sorted:
  "construct_all specs counter = (acts, counter') \<Longrightarrow>
     sorted_wrt (<) (List.map_filter order_of_play acts)"
proof (induction specs arbitrary: counter acts counter')
  case Nil
  then show ?case by (simp add: List.map_filter_simps)
next
  case (Cons spec specs)
  obtain c as where spec: "spec = (c, as)" by (cases spec)
  obtain a c1 where a: "construct c as counter = (a, c1)" by (cases "construct c as counter")
  obtain rest c2 where r: "construct_all specs c1 = (rest, c2)" by (cases "construct_all specs c1")
  from Cons.prems spec a r have acts: "acts = a # rest" by simp
  from construct_stamp [OF a] Cons.IH [OF r] construct_all_bounds [OF r] show ?case
    unfolding acts by (cases "is_game_action c") (auto simp: List.map_filter_simps)
qed

lemma construct_all_classes:
  "construct_all specs counter = (acts, counter') \<Longrightarrow>
     \<forall>a \<in> set acts. (order_of_play a = None) = is_game_action (cls a)"
proof (induction specs arbitrary: counter acts counter')
  case Nil
  then show ?case by simp
next
  case (Cons spec specs)
  obtain c as where spec: "spec = (c, as)" by (cases spec)
  obtain a c1 where a: "construct c as counter = (a, c1)" by (cases "construct c as counter")
  obtain rest c2 where r: "construct_all specs c1 = (rest, c2)" by (cases "construct_all specs c1")
  from Cons.prems spec a r have acts: "acts = a # rest" by simp
  from construct_stamp [OF a] Cons.IH [OF r] show ?case
    unfolding acts by (cases "is_game_action c") auto
qed

text \<open>
  Claim C2, as the code has it. Of the actions constructed one after another, those
  that \<open>Action.__init__\<close> builds (every class that is no \<open>GameAction\<close>) carry
  stamps that are strictly increasing in the order of construction, hence unique, and
  \<open>__mul__\<close> leaves the stamp as it is. The actions that \<open>GameAction.__init__\<close>
  builds (\<open>Attack\<close>, \<open>Play\<close>, \<open>Death\<close> and the other game actions) carry no
  stamp, and their construction does not advance the counter.
\<close>

theorem stamps_of_constructed_actions:
  assumes "construct_all specs counter = (acts, counter')"
  shows "sorted_wrt (<) (List.map_filter order_of_play acts) \<and>
     distinct (List.map_filter order_of_play acts) \<and>
     (\<forall>a \<in> set acts. (order_of_play a = None) = is_game_action (cls a)) \<and>
     (\<forall>a \<in> set acts. \<forall>v a'. Action_mul a v = Inr a' \<longrightarrow> order_of_play a' = order_of_play a)"
proof -
  have s: "sorted_wrt (<) (List.map_filter order_of_play acts)"
    by (rule construct_all_sorted [OF assms])
  then have "distinct (List.map_filter order_of_play acts)"
    by (simp add: strict_sorted_iff)
  with s construct_all_classes [OF assms] show ?thesis
    by (auto simp: Action_mul_def split: option.splits)
qed

theorem stamps_of_constructed_actions_witness:
  "construct_all [(Draw, [EntityArg 1]), (Death, [EntityArg 2]), (Heal, [EntityArg 2, IntArg 5])] 10
     = ([Action Draw (Some 11) (Some 1) [EntityArg 1],
         Action Death None None [EntityArg 2],
         Action Heal (Some 12) (Some 1) [EntityArg 2, IntArg 5]], 12) \<and>
   List.map_filter order_of_play
     (fst (construct_all [(Draw, [EntityArg 1]), (Death, [EntityArg 2]), (Heal, [EntityArg 2, IntArg 5])] 10))
     = [11, 12] \<and>
   Action_mul (Action Heal (Some 12) (Some 1) [EntityArg 2, IntArg 5]) 3
     = Inr (Action Heal (Some 12) (Some 3) [EntityArg 2, IntArg 5])"
proof -
  have c: "construct_all [(Draw, [EntityArg 1]), (Death, [EntityArg 2]), (Heal, [EntityArg 2, IntArg 5])] 10
     = ([Action Draw (Some 11) (Some 1) [EntityArg 1],
         Action Death None None [EntityArg 2],
         Action Heal (Some 12) (Some 1) [EntityArg 2, IntArg 5]], 12)"
    by (simp add: construct_def Action_init_def GameAction_init_def new_order_of_play_def)
  from stamps_of_constructed_actions [OF c] c show ?thesis
    by (simp add: List.map_filter_simps Action_mul_def)
qed

text \<open>A \<open>Death\<close>, an \<open>Attack\<close> and a \<open>Play\<close> action have no
  \<open>order_of_play\<close>.\<close>

theorem GameAction_unstamped_counterexample:
  "order_of_play (fst (construct Death [EntityArg 2] 0)) = None \<and>
   order_of_play (fst (construct Attack [EntityArg 1, EntityArg 2] 0)) = None \<and>
   order_of_play (fst (construct Play [EntityArg 1, EntityArg 2] 0)) = None \<and>
   snd (construct Death [EntityArg 2] 0) = 0"
  by (simp add: construct_def GameAction_init_def)

subsection \<open>Repeats of a targeted action\<close>







subsection \<open>The sort in gather\<close>

lemma gather_never_returns: "gather self g at' as \<noteq> Inr x"
  by (simp add: gather_def split: sum.splits)

lemma Death_do_never_returns: "Death_do self source g target \<noteq> Inr x"
  by (simp add: Death_do_def Deathrattle_gather_def gather_never_returns split: sum.splits)

text \<open>
  Claim C1 fails on the code: \<open>gather\<close> never returns a list, sorted or not, and
  neither does \<open>Death.do\<close>. With two listeners attached to entity 2 in the order
  R1, R2, both matching a death, the loops of \<open>gather\<close> collect the effect of R1
  before the effect of R2, and the line that should sort them raises NameError.
\<close>

theorem gather_raises_NameError:
  "(\<exists>err. gather self g at' as = Inl err) \<and>
   (\<exists>err. Death_do self source g target = Inl err) \<and>
   gather_scan death_pattern
      (listening_game [Action_on 3 death_pattern [FAction draw_first],
                       Action_on 4 death_pattern [FAction draw_second]]) ON [PEnt 0]
     = Inr ([GPair 2 draw_first, GPair 2 draw_second],
            listening_game [Action_on 3 death_pattern [FAction draw_first],
                            Action_on 4 death_pattern [FAction draw_second]]) \<and>
   gather death_pattern
      (listening_game [Action_on 3 death_pattern [FAction draw_first],
                       Action_on 4 death_pattern [FAction draw_second]]) ON [PEnt 0]
     = Inl NameError \<and>
   Death_do death_pattern 0
      (listening_game [Action_on 3 death_pattern [FAction draw_first],
                       Action_on 4 death_pattern [FAction draw_second]]) 0
     = Inl NameError"
proof -
  let ?g = "listening_game [Action_on 3 death_pattern [FAction draw_first],
                       Action_on 4 death_pattern [FAction draw_second]]"
  let ?g' = "?g\<lparr>queue := [(2, [draw_first]), (2, [draw_second])]\<rparr>"
  have a: "\<exists>err. gather self g at' as = Inl err"
    using gather_never_returns [of self g at' as] by (cases "gather self g at' as") auto
  have b: "\<exists>err. Death_do self source g target = Inl err"
    using Death_do_never_returns [of self source g target]
    by (cases "Death_do self source g target") auto
  have c: "gather_scan death_pattern ?g ON [PEnt 0] = Inr ([GPair 2 draw_first, GPair 2 draw_second], ?g)"
    by (simp add: gather_scan_def listening_game_def example_game_def example_entity_def
          gather_events.simps gather_event_def Action_on_def EventListener_def death_pattern_def
          construct_def GameAction_init_def isinstance_def matches_def ON_def)
  have d: "gather death_pattern ?g ON [PEnt 0] = Inl NameError"
    unfolding gather_def c by simp
  have e: "broadcast death_pattern ?g ON [PEnt 0] = Inr ?g'"
    by (simp add: broadcast_def listening_game_def example_game_def example_entity_def
          broadcast_events.simps broadcast_event_def Action_on_def EventListener_def death_pattern_def
          construct_def GameAction_init_def isinstance_def matches_def ON_def queue_actions_def)
  have c': "gather_scan death_pattern ?g' ON [PEnt 0] = Inr ([GPair 2 draw_first, GPair 2 draw_second], ?g')"
    by (simp add: gather_scan_def listening_game_def example_game_def example_entity_def
          gather_events.simps gather_event_def Action_on_def EventListener_def death_pattern_def
          construct_def GameAction_init_def isinstance_def matches_def ON_def)
  have f: "Death_do death_pattern 0 ?g 0 = Inl NameError"
    unfolding Death_do_def e by (simp add: gather_def c')
  from a b c d f show ?thesis by blast
qed

subsection \<open>Single-fire listeners\<close>

text \<open>
  Claim C3 fails on the code: the removal is not deferred. Entity 2 has a single-fire
  listener followed by an ordinary one, and both match. The broadcast queues the
  effect of the first only: its removal moves the second under the index of the loop,
  and the second is skipped, although alone it fires. The loops of \<open>gather\<close> skip
  it in the same way.
\<close>

theorem once_removal_skips_next_listener:
  "(case broadcast death_pattern
           (listening_game [Action_once 3 death_pattern [FAction draw_first],
                            Action_on 4 death_pattern [FAction draw_second]]) ON [PEnt 0] of
      Inl err \<Rightarrow> None
    | Inr g' \<Rightarrow> Some (queue g', events g' 2))
     = Some ([(2, [draw_first])], [Action_on 4 death_pattern [FAction draw_second]]) \<and>
   (case broadcast death_pattern
           (listening_game [Action_on 4 death_pattern [FAction draw_second]]) ON [PEnt 0] of
      Inl err \<Rightarrow> None
    | Inr g' \<Rightarrow> Some (queue g', events g' 2))
     = Some ([(2, [draw_second])], [Action_on 4 death_pattern [FAction draw_second]]) \<and>
   (case gather_scan death_pattern
           (listening_game [Action_once 3 death_pattern [FAction draw_first],
                            Action_on 4 death_pattern [FAction draw_second]]) ON [PEnt 0] of
      Inl err \<Rightarrow> None
    | Inr (result, g') \<Rightarrow> Some (result, events g' 2))
     = Some ([GPair 2 draw_first], [Action_on 4 death_pattern [FAction draw_second]])"
  by (simp add: broadcast_def gather_scan_def listening_game_def example_game_def example_entity_def
        broadcast_events.simps broadcast_event_def gather_events.simps gather_event_def
        Action_on_def Action_once_def EventListener_def death_pattern_def
        construct_def GameAction_init_def isinstance_def matches_def ON_def queue_actions_def)

end
